theory Spec2Isabelle
  imports Complex_Main "HOL-Library.Multiset"
begin

section \<open>JavaScript values\<close>

text \<open>
  The page records are the result of \<^verbatim>\<open>JSON.parse\<close>; the classifiers test their fields
  for truthiness and with \<^verbatim>\<open>===\<close>, and two of them return a field value as it is.
  A field that is only tested that way is a \<open>jsval\<close>:
  \<^item> \<open>JUndefined\<close>: the property is absent;
  \<^item> \<open>JNum n\<close>: a number (an integer, as identifiers and flags are, below \<open>10^21\<close>, where
    \<^verbatim>\<open>String()\<close> prints plain digits);
  \<^item> \<open>JObj s\<close>: an array or an object, \<open>s\<close> being the text \<^verbatim>\<open>String()\<close> gives for it.
  The fields the code computes with are typed: the page number is an integer, the
  amounts are numbers and the vendor name is a string, each of them optional
  (\<open>None\<close>: absent or \<^verbatim>\<open>null\<close>). Text is ASCII.
\<close>

datatype jsval = JUndefined | JNull | JBool bool | JNum int | JStr string | JObj string

fun truthy :: "jsval \<Rightarrow> bool" where
  "truthy JUndefined = False"
| "truthy JNull = False"
| "truthy (JBool b) = b"
| "truthy (JNum n) = (n \<noteq> 0)"
| "truthy (JStr s) = (s \<noteq> [])"
| "truthy (JObj s) = True"

text \<open>\<^verbatim>\<open>a && b\<close>, \<^verbatim>\<open>a || b\<close> and \<^verbatim>\<open>!a\<close>: the first two return one of their operands.\<close>

definition js_and :: "jsval \<Rightarrow> jsval \<Rightarrow> jsval" where
  "js_and a b = (if truthy a then b else a)"

definition js_or :: "jsval \<Rightarrow> jsval \<Rightarrow> jsval" where
  "js_or a b = (if truthy a then a else b)"

definition js_not :: "jsval \<Rightarrow> jsval" where
  "js_not a = JBool (\<not> truthy a)"

text \<open>
  \<^verbatim>\<open>a === b\<close>. The code compares fields of two different pages, so two objects are
  never the same object.
\<close>

fun strict_eq :: "jsval \<Rightarrow> jsval \<Rightarrow> bool" where
  "strict_eq (JObj s) b = False"
| "strict_eq a b = (a = b)"

definition is_boolean :: "jsval \<Rightarrow> bool" where
  "is_boolean v = (v = JBool True \<or> v = JBool False)"

subsection \<open>Strings\<close>

definition is_digit :: "char \<Rightarrow> bool" where
  "is_digit c = (c \<in> set ''0123456789'')"

definition is_space :: "char \<Rightarrow> bool" where
  "is_space c = (c \<in> set [CHR 0x09, CHR 0x0A, CHR 0x0B, CHR 0x0C, CHR 0x0D, CHR 0x20])"

definition trim :: "string \<Rightarrow> string" where
  "trim s = rev (dropWhile is_space (rev (dropWhile is_space s)))"

definition lower_char :: "char \<Rightarrow> char" where
  "lower_char c =
     (case map_of (zip ''ABCDEFGHIJKLMNOPQRSTUVWXYZ'' ''abcdefghijklmnopqrstuvwxyz'') c of
        None \<Rightarrow> c | Some d \<Rightarrow> d)"

definition upper_char :: "char \<Rightarrow> char" where
  "upper_char c =
     (case map_of (zip ''abcdefghijklmnopqrstuvwxyz'' ''ABCDEFGHIJKLMNOPQRSTUVWXYZ'') c of
        None \<Rightarrow> c | Some d \<Rightarrow> d)"

definition toLowerCase :: "string \<Rightarrow> string" where
  "toLowerCase s = map lower_char s"

definition toUpperCase :: "string \<Rightarrow> string" where
  "toUpperCase s = map upper_char s"

fun startsWith :: "string \<Rightarrow> string \<Rightarrow> bool" where
  "startsWith s [] = True"
| "startsWith [] (c # cs) = False"
| "startsWith (d # ds) (c # cs) = (d = c \<and> startsWith ds cs)"

fun str_includes :: "string \<Rightarrow> string \<Rightarrow> bool" where
  "str_includes [] sub = (sub = [])"
| "str_includes (c # cs) sub = (startsWith (c # cs) sub \<or> str_includes cs sub)"

fun show_nat :: "nat \<Rightarrow> string" where
  "show_nat n =
     (if n < 10 then [char_of (48 + n)] else show_nat (n div 10) @ [char_of (48 + n mod 10)])"

declare show_nat.simps [simp del]

text \<open>\<^verbatim>\<open>String(v)\<close>.\<close>

fun js_String :: "jsval \<Rightarrow> string" where
  "js_String JUndefined = ''undefined''"
| "js_String JNull = ''null''"
| "js_String (JBool b) = (if b then ''true'' else ''false'')"
| "js_String (JNum n) = (if n < 0 then CHR ''-'' # show_nat (nat (- n)) else show_nat (nat n))"
| "js_String (JStr s) = s"
| "js_String (JObj s) = s"

section \<open>Page records\<close>

record ocr =
  meta_source_page :: "int option"
  meta_is_continuation_page :: jsval
  meta_has_grand_total :: jsval
  meta_invoice_type :: jsval
  invoice_number :: jsval
  invoice_date :: jsval
  vendor_name :: "string option"
  vendor_id :: jsval
  bu_code :: jsval
  processor_name :: jsval
  invoice_total :: "rat option"
  amount_paid :: "rat option"
  amount_due :: "rat option"
  taxes :: "rat option"

text \<open>\<^verbatim>\<open>!name\<close> for an optional string: absent, \<^verbatim>\<open>null\<close> or empty.\<close>

definition no_string :: "string option \<Rightarrow> bool" where
  "no_string n = (case n of None \<Rightarrow> True | Some s \<Rightarrow> s = [])"

text \<open>\<^verbatim>\<open>x || 0\<close> for an optional number.\<close>

definition or0 :: "'a::zero option \<Rightarrow> 'a" where
  "or0 x = (case x of None \<Rightarrow> 0 | Some v \<Rightarrow> v)"

section \<open>Continuation page detection\<close>

text \<open>
  The three classifiers take the parsed payload: \<open>None\<close> is \<^verbatim>\<open>null\<close> (or
  \<^verbatim>\<open>undefined\<close>), the case \<^verbatim>\<open>if (!ocr) return false\<close>. They return what the
  JavaScript returns, a \<open>jsval\<close>.
\<close>

definition hasNoDate :: "ocr \<Rightarrow> bool" where
  "hasNoDate p = (\<not> truthy (invoice_date p) \<or> strict_eq (invoice_date p) (JStr ''null'')
     \<or> strict_eq (invoice_date p) (JStr ''YYYY-MM-DD''))"

definition hasNoInvoiceNum :: "ocr \<Rightarrow> bool" where
  "hasNoInvoiceNum p = (\<not> truthy (invoice_number p)
     \<or> strict_eq (invoice_number p) (JStr ''N/A'')
     \<or> strict_eq (invoice_number p) (JStr ''null'')
     \<or> strict_eq (invoice_number p) (JStr ''string'')
     \<or> strict_eq (invoice_number p) (JStr ''unknown''))"

definition hasNoVendorId :: "ocr \<Rightarrow> bool" where
  "hasNoVendorId p = (\<not> truthy (vendor_id p))"

definition hasNoBuCode :: "ocr \<Rightarrow> bool" where
  "hasNoBuCode p = (\<not> truthy (bu_code p))"

definition hasUnknownVendor :: "ocr \<Rightarrow> bool" where
  "hasUnknownVendor p = (no_string (vendor_name p) \<or> vendor_name p = Some ''unknown''
     \<or> vendor_name p = Some ''Unknown'')"

definition isEffectiveContinuationPage :: "ocr option \<Rightarrow> jsval" where
  "isEffectiveContinuationPage ocr =
     (case ocr of
        None \<Rightarrow> JBool False
      | Some p \<Rightarrow>
          if strict_eq (meta_is_continuation_page p) (JBool True) then JBool True
          else if hasNoDate p \<and> (hasNoInvoiceNum p \<or> hasNoVendorId p) then JBool True
          else if hasUnknownVendor p \<and> hasNoDate p \<and> hasNoVendorId p \<and> hasNoBuCode p
            then JBool True
          else JBool False)"

definition isHeaderPage :: "ocr option \<Rightarrow> jsval" where
  "isHeaderPage ocr =
     (case ocr of
        None \<Rightarrow> JBool False
      | Some p \<Rightarrow>
          js_and (js_and (js_and (vendor_id p) (bu_code p)) (invoice_date p))
            (js_not (meta_is_continuation_page p)))"

text \<open>\<^verbatim>\<open>/^97\d+$/.test(s)\<close>\<close>

definition folio_pattern :: "string \<Rightarrow> bool" where
  "folio_pattern s = (startsWith s ''97'' \<and> drop 2 s \<noteq> [] \<and> list_all is_digit (drop 2 s))"

definition isFolioPage :: "ocr option \<Rightarrow> jsval" where
  "isFolioPage ocr =
     (case ocr of
        None \<Rightarrow> JBool False
      | Some p \<Rightarrow>
          js_and (invoice_number p) (JBool (folio_pattern (js_String (invoice_number p)))))"

subsection \<open>The classifier as the specification words it\<close>

definition spec_declared_continuation :: "ocr \<Rightarrow> bool" where
  "spec_declared_continuation p = (meta_is_continuation_page p = JBool True)"

definition spec_date_missing :: "ocr \<Rightarrow> bool" where
  "spec_date_missing p = (invoice_date p \<in> {JUndefined, JNull, JBool False, JNum 0, JStr [],
     JStr ''null'', JStr ''YYYY-MM-DD''})"

definition spec_number_missing_or_placeholder :: "ocr \<Rightarrow> bool" where
  "spec_number_missing_or_placeholder p = (invoice_number p \<in> {JUndefined, JNull, JBool False,
     JNum 0, JStr [], JStr ''N/A'', JStr ''null'', JStr ''string'', JStr ''unknown''})"

definition spec_vendor_id_missing :: "ocr \<Rightarrow> bool" where
  "spec_vendor_id_missing p = (vendor_id p \<in> {JUndefined, JNull, JBool False, JNum 0, JStr []})"

definition spec_business_code_missing :: "ocr \<Rightarrow> bool" where
  "spec_business_code_missing p =
     (bu_code p \<in> {JUndefined, JNull, JBool False, JNum 0, JStr []})"

definition spec_vendor_unknown :: "ocr \<Rightarrow> bool" where
  "spec_vendor_unknown p =
     (vendor_name p \<in> {None, Some [], Some ''unknown'', Some ''Unknown''})"

definition spec_effective_continuation :: "ocr \<Rightarrow> bool" where
  "spec_effective_continuation p =
     (spec_declared_continuation p
      \<or> (spec_date_missing p \<and> (spec_number_missing_or_placeholder p \<or> spec_vendor_id_missing p))
      \<or> (spec_vendor_unknown p \<and> spec_date_missing p \<and> spec_vendor_id_missing p
          \<and> spec_business_code_missing p))"

section \<open>Ledger matching\<close>

record ledger =
  document_type :: string
  ledger_invoice_number :: string
  ledger_vendor_name :: string
  ledger_invoice_date :: string
  debit :: rat

text \<open>The table that maps the vendor names of the scans to those of the ledger.\<close>

definition VENDOR_MAPPINGS :: "(string \<times> string) list" where
  "VENDOR_MAPPINGS =
     [(''extended stay america'', ''ESA MANAGEMENT LLC''),
      (''esa management l.l.c.'', ''ESA MANAGEMENT LLC''),
      (''esa management llc'', ''ESA MANAGEMENT LLC''),
      (''esa management'', ''ESA MANAGEMENT LLC''),
      (''esa suites'', ''ESA MANAGEMENT LLC''),
      (''esa'', ''ESA MANAGEMENT LLC''),
      (''the ave'', ''THE AVE NASHVILLE LLC''),
      (''the ave nashville'', ''THE AVE NASHVILLE LLC''),
      (''the ave nashville llc'', ''THE AVE NASHVILLE LLC''),
      (''hillside crossing hotel'', ''HILLSIDE CROSSING LLC''),
      (''hillside crossing llc'', ''HILLSIDE CROSSING LLC''),
      (''hillside crossing'', ''HILLSIDE CROSSING LLC''),
      (''randstad'', ''Randstad North America Inc dba Randstad USA LLC''),
      (''randstad usa'', ''Randstad North America Inc dba Randstad USA LLC''),
      (''randstad north america'', ''Randstad North America Inc dba Randstad USA LLC''),
      (''depaul usa'', ''Depaul USA''),
      (''depaul'', ''Depaul USA''),
      (''community care fellowship, inc.'', ''COMMUNITY CARE FELLOWSHIP''),
      (''community care fellowship'', ''COMMUNITY CARE FELLOWSHIP''),
      (''rj young'', ''RJ Young Company LLC''),
      (''r.j. young'', ''RJ Young Company LLC''),
      (''robert j young company'', ''RJ Young Company LLC''),
      (''rj young company llc'', ''RJ Young Company LLC''),
      (''grainger'', CHR 0x22 # ''W.W. Grainger, Inc. dba Grainger'' @ [CHR 0x22]),
      (''w.w. grainger'', CHR 0x22 # ''W.W. Grainger, Inc. dba Grainger'' @ [CHR 0x22]),
      (''w.w. grainger, inc.'', CHR 0x22 # ''W.W. Grainger, Inc. dba Grainger'' @ [CHR 0x22]),
      (''w.w. grainger, inc. dba grainger'',
         CHR 0x22 # ''W.W. Grainger, Inc. dba Grainger'' @ [CHR 0x22]),
      (''97 wallace studios, llc'', ''97 WALLACE STUDIOS''),
      (''97 wallace studios'', ''97 WALLACE STUDIOS''),
      (''thompson machinery'', ''Thompson Machinery Commerce Corp.''),
      (''thompson machinery commerce corp.'', ''Thompson Machinery Commerce Corp.''),
      (''gordon food service inc.'', CHR 0x22 # ''Gordon Food Service, Inc.'' @ [CHR 0x22]),
      (''gordon food service'', CHR 0x22 # ''Gordon Food Service, Inc.'' @ [CHR 0x22]),
      (''gordon food service store'', CHR 0x22 # ''Gordon Food Service, Inc.'' @ [CHR 0x22]),
      (''gordon food service, inc.'', CHR 0x22 # ''Gordon Food Service, Inc.'' @ [CHR 0x22]),
      (''j hamilton'', CHR 0x22 # ''Hamilton, Justen T'' @ [CHR 0x22]),
      (''hamilton, justen t'', CHR 0x22 # ''Hamilton, Justen T'' @ [CHR 0x22]),
      (''justen hamilton'', CHR 0x22 # ''Hamilton, Justen T'' @ [CHR 0x22]),
      (''the hospitality hub of memphis'', ''The Hospitality Hub of Memphis''),
      (''hospitality hub'', ''The Hospitality Hub of Memphis'')]"

definition normalizeVendorForLedgerMatch :: "string option \<Rightarrow> string" where
  "normalizeVendorForLedgerMatch vendorName =
     (case vendorName of
        None \<Rightarrow> []
      | Some name \<Rightarrow>
          if name = [] then []
          else (case map_of VENDOR_MAPPINGS (trim (toLowerCase name)) of
                  Some mapped \<Rightarrow> mapped
                | None \<Rightarrow> name))"

text \<open>\<^verbatim>\<open>String(invoiceNum).trim().replace(/^0+/, '').toUpperCase()\<close>\<close>

definition normalizeInvoiceNumber :: "jsval \<Rightarrow> string" where
  "normalizeInvoiceNumber invoiceNum =
     (if \<not> truthy invoiceNum then []
      else toUpperCase (dropWhile (\<lambda>c. c = CHR ''0'') (trim (js_String invoiceNum))))"

text \<open>\<^verbatim>\<open>/^\d{4}-\d{2}-\d{2}$/\<close>\<close>

definition iso_pattern :: "string \<Rightarrow> bool" where
  "iso_pattern s =
     (length s = 10 \<and> list_all is_digit (take 4 s) \<and> s ! 4 = CHR ''-''
      \<and> list_all is_digit (take 2 (drop 5 s)) \<and> s ! 7 = CHR ''-''
      \<and> list_all is_digit (drop 8 s))"

text \<open>
  \<^verbatim>\<open>str.match(/^(\d{1,2})\/(\d{1,2})\/(\d{4})$/)\<close>: the three groups (month, day,
  year), or \<open>None\<close> where the text does not match.
\<close>

definition us_match :: "string \<Rightarrow> (string \<times> string \<times> string) option" where
  "us_match s =
     (let month = takeWhile is_digit s; r1 = drop (length month) s
      in if length month \<in> {1, 2} \<and> startsWith r1 ''/''
         then (let day = takeWhile is_digit (tl r1); r2 = drop (length day) (tl r1)
               in if length day \<in> {1, 2} \<and> startsWith r2 ''/'' \<and> length (tl r2) = 4
                     \<and> list_all is_digit (tl r2)
                  then Some (month, day, tl r2) else None)
         else None)"

definition padStart2 :: "string \<Rightarrow> string" where
  "padStart2 s = replicate (2 - length s) CHR ''0'' @ s"

definition normalizeDate :: "jsval \<Rightarrow> string" where
  "normalizeDate dateStr =
     (if \<not> truthy dateStr then []
      else (let str = trim (js_String dateStr)
            in if iso_pattern str then str
               else (case us_match str of
                       Some (month, day, year) \<Rightarrow>
                         year @ ''-'' @ padStart2 month @ ''-'' @ padStart2 day
                     | None \<Rightarrow> str)))"

text \<open>\<^verbatim>\<open>Math.round(x * 100)\<close>, on exact numbers: halves round up.\<close>

definition cents :: "rat \<Rightarrow> int" where
  "cents x = \<lfloor>x * 100 + 1 / 2\<rfloor>"

text \<open>
  The matcher tells its entries apart by object identity (\<^verbatim>\<open>indexOf\<close>,
  \<^verbatim>\<open>o === ocr\<close>). An entry of the model is the pair of its position in the input array
  and its record, so that two entries are the same entry exactly when they are equal.
  The \<^verbatim>\<open>notes\<close> text of a match is left out.
\<close>

type_synonym ledger_entry = "nat \<times> ledger"
type_synonym ocr_entry = "nat \<times> ocr"

record match_info =
  match_type :: string
  confidence :: rat

record match =
  match_ledger :: ledger_entry
  match_ocr :: ocr_entry
  matchInfo :: match_info

record match_state =
  matches :: "match list"
  unmatchedLedger :: "ledger_entry list"
  unmatchedOcr :: "ocr_entry list"

text \<open>The lookup index \<^verbatim>\<open>ocrByInvoiceNum\<close>, filled by the first \<^verbatim>\<open>forEach\<close>.\<close>

definition index_add :: "ocr_entry \<Rightarrow> (string \<rightharpoonup> ocr_entry list) \<Rightarrow> (string \<rightharpoonup> ocr_entry list)"
  where
  "index_add e m =
     (let invoiceNum = normalizeInvoiceNumber (invoice_number (snd e))
      in if invoiceNum \<noteq> [] \<and> invoiceNum \<noteq> ''N/A''
         then m(invoiceNum \<mapsto> (case m invoiceNum of None \<Rightarrow> [] | Some es \<Rightarrow> es) @ [e])
         else m)"

definition ocrByInvoiceNum :: "ocr_entry list \<Rightarrow> (string \<rightharpoonup> ocr_entry list)" where
  "ocrByInvoiceNum es = fold index_add es Map.empty"

definition candidates_of :: "(string \<rightharpoonup> ocr_entry list) \<Rightarrow> string \<Rightarrow> ocr_entry list" where
  "candidates_of idx k = (case idx k of None \<Rightarrow> [] | Some es \<Rightarrow> es)"

text \<open>Pass 1: the loop over the candidates, left at the first vendor match.\<close>

fun pass1_scan :: "ledger \<Rightarrow> ocr_entry list \<Rightarrow> ocr_entry option" where
  "pass1_scan l [] = None"
| "pass1_scan l (c # cs) =
     (let normalizedOcrVendor = normalizeVendorForLedgerMatch (vendor_name (snd c));
          ledgerVendor = ledger_vendor_name l
      in if toUpperCase normalizedOcrVendor = toUpperCase ledgerVendor
            \<or> normalizedOcrVendor = ledgerVendor
         then Some c
         else pass1_scan l cs)"

definition pass1_step ::
  "(string \<rightharpoonup> ocr_entry list) \<Rightarrow> ledger_entry \<Rightarrow> match_state \<Rightarrow> match_state" where
  "pass1_step idx le st =
     (if document_type (snd le) \<noteq> ''Invoice'' then st
      else (let ledgerInvoiceNum = normalizeInvoiceNumber (JStr (ledger_invoice_number (snd le)))
            in if ledgerInvoiceNum = [] then st
               else (case pass1_scan (snd le) (candidates_of idx ledgerInvoiceNum) of
                       None \<Rightarrow> st
                     | Some c \<Rightarrow>
                         \<lparr>matches = matches st @
                            [\<lparr>match_ledger = le, match_ocr = c,
                              matchInfo = \<lparr>match_type = ''invoice_number'',
                                           confidence = 95 / 100\<rparr>\<rparr>],
                          unmatchedLedger = remove1 le (unmatchedLedger st),
                          unmatchedOcr = remove1 c (unmatchedOcr st)\<rparr>)))"

text \<open>Pass 2: the loop over the unmatched documents, left at the first agreement.\<close>

fun pass2_scan :: "ledger \<Rightarrow> ocr_entry list \<Rightarrow> ocr_entry option" where
  "pass2_scan l [] = None"
| "pass2_scan l (c # cs) =
     (let ledgerVendor = ledger_vendor_name l;
          ledgerDate = normalizeDate (JStr (ledger_invoice_date l));
          ledgerAmount = cents (debit l);
          normalizedOcrVendor = normalizeVendorForLedgerMatch (vendor_name (snd c));
          ocrDate = normalizeDate (invoice_date (snd c));
          ocrAmount = cents (or0 (invoice_total (snd c)))
      in if toUpperCase normalizedOcrVendor = toUpperCase ledgerVendor
            \<and> ledgerDate = ocrDate \<and> ledgerAmount = ocrAmount
         then Some c
         else pass2_scan l cs)"

definition pass2_step :: "ledger_entry \<Rightarrow> match_state \<Rightarrow> match_state" where
  "pass2_step le st =
     (if normalizeDate (JStr (ledger_invoice_date (snd le))) = [] then st
      else (case pass2_scan (snd le) (unmatchedOcr st) of
              None \<Rightarrow> st
            | Some c \<Rightarrow>
                \<lparr>matches = matches st @
                   [\<lparr>match_ledger = le, match_ocr = c,
                     matchInfo = \<lparr>match_type = ''vendor_date_amount'',
                                  confidence = 85 / 100\<rparr>\<rparr>],
                 unmatchedLedger = remove1 le (unmatchedLedger st),
                 unmatchedOcr = remove1 c (unmatchedOcr st)\<rparr>))"

definition pass1 :: "ledger_entry list \<Rightarrow> ocr_entry list \<Rightarrow> match_state" where
  "pass1 ls os =
     fold (pass1_step (ocrByInvoiceNum os)) ls
       \<lparr>matches = [], unmatchedLedger = ls, unmatchedOcr = os\<rparr>"

definition pass2 :: "match_state \<Rightarrow> match_state" where
  "pass2 st =
     fold pass2_step (filter (\<lambda>le. document_type (snd le) = ''Invoice'') (unmatchedLedger st)) st"

definition matchInvoices :: "ledger list \<Rightarrow> ocr list \<Rightarrow> match_state" where
  "matchInvoices ledgerEntries ocrInvoices =
     pass2 (pass1 (enumerate 0 ledgerEntries) (enumerate 0 ocrInvoices))"


subsection \<open>Sample records\<close>

definition blank_page :: ocr where
  "blank_page =
     \<lparr>meta_source_page = None, meta_is_continuation_page = JUndefined,
      meta_has_grand_total = JUndefined, meta_invoice_type = JUndefined,
      invoice_number = JUndefined, invoice_date = JUndefined, vendor_name = None,
      vendor_id = JUndefined, bu_code = JUndefined, processor_name = JUndefined,
      invoice_total = None, amount_paid = None, amount_due = None, taxes = None\<rparr>"

definition acme_doc :: ocr where
  "acme_doc = blank_page\<lparr>invoice_number := JStr ''R35086148'',
     vendor_name := Some ''Acme Staffing'', invoice_date := JStr ''2024-09-08'',
     invoice_total := Some 2240\<rparr>"

definition acme_ledger :: ledger where
  "acme_ledger =
     \<lparr>document_type = ''Invoice'', ledger_invoice_number = ''R35086148'',
      ledger_vendor_name = ''Acme Staffing'', ledger_invoice_date = ''9/8/2024'',
      debit = 2240\<rparr>"

definition hotels_ledger :: ledger where
  "hotels_ledger =
     \<lparr>document_type = ''Invoice'', ledger_invoice_number = [],
      ledger_vendor_name = ''ACME HOTELS'', ledger_invoice_date = ''09/08/2024'',
      debit = 2240\<rparr>"

definition hotels_doc :: ocr where
  "hotels_doc = blank_page\<lparr>invoice_number := JStr ''n/a'',
     vendor_name := Some ''Acme Hotels'', invoice_date := JStr ''2024-09-08'',
     invoice_total := Some 2240\<rparr>"

definition hotels_state :: match_state where
  "hotels_state =
     \<lparr>matches = [], unmatchedLedger = [(0, hotels_ledger)],
      unmatchedOcr = [(0, acme_doc), (1, hotels_doc)]\<rparr>"

definition zeros_ledger :: ledger where
  "zeros_ledger =
     \<lparr>document_type = ''Invoice'', ledger_invoice_number = '' 000 '',
      ledger_vendor_name = ''ACME HOTELS'', ledger_invoice_date = ''09/08/2024'',
      debit = 2240\<rparr>"

subsection \<open>Invariants of the matcher\<close>

text \<open>What holds of every entry of the lookup index, and of every match made by number.\<close>

definition index_ok :: "ocr_entry list \<Rightarrow> (string \<rightharpoonup> ocr_entry list) \<Rightarrow> bool" where
  "index_ok es m = (\<forall>k e. e \<in> set (candidates_of m k) \<longrightarrow>
     e \<in> set es \<and> normalizeInvoiceNumber (invoice_number (snd e)) = k \<and> k \<noteq> [] \<and> k \<noteq> ''N/A'')"

definition by_number_ok :: "match \<Rightarrow> bool" where
  "by_number_ok m = (match_type (matchInfo m) = ''invoice_number'' \<longrightarrow>
     normalizeInvoiceNumber (invoice_number (snd (match_ocr m))) \<notin> {[], ''N/A''}
     \<and> normalizeInvoiceNumber (JStr (ledger_invoice_number (snd (match_ledger m)))) \<noteq> [])"

section \<open>Document assembly\<close>

text \<open>
  A row of the input table. \<open>OCR\<close> holds what \<^verbatim>\<open>parseOCR(row.OCR)\<close> returns: the parsed
  page record, or \<open>None\<close> (\<^verbatim>\<open>null\<close>) where the text is absent or does not parse. A page
  is a row with its record; \<open>page_pos\<close>, the position of the row in the input, stands for
  the identity of the page object.
\<close>

record row =
  Number :: string
  File_ID :: string
  OCR :: "ocr option"

record page =
  page_pos :: nat
  page_row :: row
  page_ocr :: ocr

definition normalizeVendorName :: "string option \<Rightarrow> string" where
  "normalizeVendorName name =
     (case name of
        None \<Rightarrow> []
      | Some n \<Rightarrow>
          if n = [] then []
          else (let normalized = trim (toLowerCase n)
                in if str_includes normalized ''extended stay''
                      \<or> str_includes normalized ''esa management''
                      \<or> str_includes normalized ''esa suites''
                   then ''esa'' else normalized))"

definition isSameVendor :: "string option \<Rightarrow> string option \<Rightarrow> bool" where
  "isSameVendor vendor1 vendor2 = (normalizeVendorName vendor1 = normalizeVendorName vendor2)"

definition isUnknownVendor :: "string option \<Rightarrow> bool" where
  "isUnknownVendor vendorName =
     (case vendorName of
        None \<Rightarrow> True
      | Some n \<Rightarrow>
          if n = [] then True
          else (let normalized = trim (toLowerCase n)
                in normalized = ''unknown'' \<or> normalized = []))"

text \<open>\<^verbatim>\<open>ocr?.meta_source_page || 0\<close>\<close>

definition pageNo :: "page \<Rightarrow> int" where
  "pageNo p = or0 (meta_source_page (page_ocr p))"

definition make_page :: "nat \<times> row \<Rightarrow> page option" where
  "make_page ir =
     (case OCR (snd ir) of
        None \<Rightarrow> None
      | Some p \<Rightarrow> Some \<lparr>page_pos = fst ir, page_row = snd ir, page_ocr = p\<rparr>)"

text \<open>
  The rows with a payload, sorted by page number. \<^verbatim>\<open>Array.prototype.sort\<close> is stable
  (ES2019), as the insertion sort \<open>sort_key\<close> is.
\<close>

definition pagesWithOcr :: "row list \<Rightarrow> page list" where
  "pagesWithOcr rows = sort_key pageNo (List.map_filter make_page (enumerate 0 rows))"

text \<open>
  The signals to merge: the chain of \<^verbatim>\<open>if\<close> and \<^verbatim>\<open>else if\<close> that sets
  \<^verbatim>\<open>shouldMerge\<close>, for the current page, the last page of the open group and its first
  page.
\<close>

definition mergeSignal :: "ocr \<Rightarrow> ocr \<Rightarrow> ocr \<Rightarrow> bool" where
  "mergeSignal currentOcr prevOcr firstOcr =
     (let currentPage = or0 (meta_source_page currentOcr);
          isContinuation = strict_eq (meta_is_continuation_page currentOcr) (JBool True);
          isEffectiveCont = truthy (isEffectiveContinuationPage (Some currentOcr));
          hasGrandTotal = strict_eq (meta_has_grand_total currentOcr) (JBool True);
          invoiceTotal = or0 (invoice_total currentOcr);
          prevPage = or0 (meta_source_page prevOcr);
          isConsecutive = (currentPage = prevPage + 1)
      in if isContinuation \<and> isConsecutive
            \<and> isSameVendor (vendor_name currentOcr) (vendor_name prevOcr)
         then True
         else if isConsecutive \<and> isSameVendor (vendor_name currentOcr) (vendor_name prevOcr)
                 \<and> \<not> hasGrandTotal \<and> invoiceTotal = 0
         then True
         else if truthy (invoice_number currentOcr)
                 \<and> \<not> strict_eq (invoice_number currentOcr) (JStr ''N/A'')
                 \<and> strict_eq (invoice_number prevOcr) (invoice_number currentOcr)
                 \<and> isSameVendor (vendor_name currentOcr) (vendor_name prevOcr)
         then True
         else if (isContinuation \<or> isEffectiveCont) \<and> \<not> truthy (vendor_id currentOcr)
                 \<and> \<not> truthy (bu_code currentOcr) \<and> isConsecutive
         then isSameVendor (vendor_name currentOcr) (vendor_name firstOcr)
              \<or> isUnknownVendor (vendor_name currentOcr)
         else if isEffectiveCont \<and> isConsecutive
                 \<and> isSameVendor (vendor_name currentOcr) (vendor_name firstOcr)
         then truthy (isHeaderPage (Some firstOcr))
         else if truthy (isFolioPage (Some currentOcr)) \<and> isConsecutive
                 \<and> isSameVendor (vendor_name currentOcr) (vendor_name firstOcr)
         then truthy (isHeaderPage (Some firstOcr)) \<and> \<not> truthy (vendor_id currentOcr)
         else if truthy (isFolioPage (Some currentOcr)) \<and> isConsecutive
                 \<and> truthy (bu_code currentOcr) \<and> truthy (bu_code firstOcr)
                 \<and> strict_eq (bu_code currentOcr) (bu_code firstOcr)
                 \<and> \<not> truthy (vendor_id currentOcr)
                 \<and> isSameVendor (vendor_name currentOcr) (vendor_name firstOcr)
         then True
         else if isEffectiveCont \<and> isConsecutive \<and> isUnknownVendor (vendor_name currentOcr)
                 \<and> strict_eq (meta_invoice_type currentOcr) (meta_invoice_type firstOcr)
                 \<and> \<not> truthy (vendor_id currentOcr) \<and> \<not> truthy (bu_code currentOcr)
         then True
         else False)"

text \<open>
  The overrides, read when a signal has fired: the value of \<^verbatim>\<open>shouldMerge\<close> after
  them. The first three exclude each other (\<^verbatim>\<open>else if\<close>), the last two are tested
  in every case.
\<close>

definition mergeOverrides :: "ocr \<Rightarrow> ocr \<Rightarrow> ocr \<Rightarrow> bool" where
  "mergeOverrides currentOcr prevOcr firstOcr =
     (let currentPage = or0 (meta_source_page currentOcr);
          isContinuation = strict_eq (meta_is_continuation_page currentOcr) (JBool True);
          isEffectiveCont = truthy (isEffectiveContinuationPage (Some currentOcr));
          isHeader = truthy (isHeaderPage (Some currentOcr));
          hasGrandTotal = strict_eq (meta_has_grand_total currentOcr) (JBool True);
          invoiceTotal = or0 (invoice_total currentOcr);
          prevPage = or0 (meta_source_page prevOcr);
          isConsecutive = (currentPage = prevPage + 1);
          afterFirst =
            (if isHeader \<and> \<not> isContinuation then False
             else if \<not> isContinuation \<and> \<not> isEffectiveCont
                     \<and> truthy (invoice_number currentOcr)
                     \<and> \<not> strict_eq (invoice_number currentOcr) (JStr ''N/A'')
                     \<and> truthy (invoice_number firstOcr)
                     \<and> \<not> strict_eq (invoice_number firstOcr) (JStr ''N/A'')
                     \<and> \<not> strict_eq (invoice_number currentOcr) (invoice_number firstOcr)
                     \<and> \<not> truthy (isFolioPage (Some currentOcr))
             then False
             else if \<not> isContinuation \<and> \<not> isEffectiveCont \<and> hasGrandTotal
                     \<and> truthy (meta_has_grand_total prevOcr) \<and> invoiceTotal > 0
                     \<and> or0 (invoice_total prevOcr) > 0
             then (let isFolioWithSameBuCode =
                         truthy (isFolioPage (Some currentOcr))
                         \<and> truthy (bu_code currentOcr) \<and> truthy (bu_code firstOcr)
                         \<and> strict_eq (bu_code currentOcr) (bu_code firstOcr)
                   in if \<not> isFolioWithSameBuCode then False else True)
             else True);
          afterVendor =
            (if \<not> isSameVendor (vendor_name currentOcr) (vendor_name firstOcr)
                \<and> \<not> isUnknownVendor (vendor_name currentOcr)
             then False else afterFirst)
      in if \<not> isConsecutive \<and> currentPage > prevPage + 1 then False else afterVendor)"

definition shouldMerge :: "ocr \<Rightarrow> ocr \<Rightarrow> ocr \<Rightarrow> bool" where
  "shouldMerge currentOcr prevOcr firstOcr =
     (if mergeSignal currentOcr prevOcr firstOcr
      then mergeOverrides currentOcr prevOcr firstOcr else False)"

text \<open>
  The look at the next page (\<open>None\<close>: there is none), after a page with a grand total
  has been added to the group.
\<close>

definition shouldContinue :: "ocr \<Rightarrow> ocr \<Rightarrow> ocr option \<Rightarrow> bool" where
  "shouldContinue currentOcr firstOcr next =
     (case next of
        None \<Rightarrow> False
      | Some nextOcr \<Rightarrow>
          (let currentPage = or0 (meta_source_page currentOcr);
               nextIsConsecutive = (meta_source_page nextOcr = Some (currentPage + 1));
               nextIsEffectiveCont = truthy (isEffectiveContinuationPage (Some nextOcr));
               nextIsSameVendor = isSameVendor (vendor_name nextOcr) (vendor_name firstOcr);
               nextIsFolio = truthy (isFolioPage (Some nextOcr));
               nextHasSameBuCode = (truthy (bu_code nextOcr) \<and> truthy (bu_code firstOcr)
                                    \<and> strict_eq (bu_code nextOcr) (bu_code firstOcr));
               nextIsNewHeader = truthy (isHeaderPage (Some nextOcr))
           in nextIsConsecutive \<and> nextIsSameVendor
              \<and> (nextIsEffectiveCont
                  \<or> (nextIsFolio \<and> nextHasSameBuCode \<and> \<not> nextIsNewHeader
                      \<and> \<not> truthy (vendor_id nextOcr)))))"

record assembler_state =
  invoiceGroups :: "page list list"
  currentGroup :: "page list"

text \<open>The body of the loop over the pages, for the page at \<open>i\<close> and the one at \<open>i + 1\<close>.\<close>

definition loop_body :: "assembler_state \<Rightarrow> page \<Rightarrow> page option \<Rightarrow> assembler_state" where
  "loop_body st current nextPage =
     (let currentOcr = page_ocr current;
          isEffectiveCont = truthy (isEffectiveContinuationPage (Some currentOcr));
          hasGrandTotal = strict_eq (meta_has_grand_total currentOcr) (JBool True);
          invoiceTotal = or0 (invoice_total currentOcr)
      in if currentGroup st = [] then st\<lparr>currentGroup := [current]\<rparr>
         else (let prevOcr = page_ocr (last (currentGroup st));
                   firstOcr = page_ocr (hd (currentGroup st))
               in if shouldMerge currentOcr prevOcr firstOcr
                  then (if hasGrandTotal \<and> invoiceTotal > 0 \<and> \<not> isEffectiveCont
                           \<and> \<not> shouldContinue currentOcr firstOcr (map_option page_ocr nextPage)
                        then \<lparr>invoiceGroups = invoiceGroups st @ [currentGroup st @ [current]],
                              currentGroup = []\<rparr>
                        else st\<lparr>currentGroup := currentGroup st @ [current]\<rparr>)
                  else \<lparr>invoiceGroups =
                          (if currentGroup st \<noteq> [] then invoiceGroups st @ [currentGroup st]
                           else invoiceGroups st),
                        currentGroup = [current]\<rparr>))"

fun loop :: "page list \<Rightarrow> assembler_state \<Rightarrow> assembler_state" where
  "loop [] st = st"
| "loop (current # rest) st =
     loop rest (loop_body st current (case rest of [] \<Rightarrow> None | nextPage # _ \<Rightarrow> Some nextPage))"

definition processInvoices :: "row list \<Rightarrow> page list list" where
  "processInvoices rows =
     (let st = loop (pagesWithOcr rows) \<lparr>invoiceGroups = [], currentGroup = []\<rparr>
      in if currentGroup st \<noteq> [] then invoiceGroups st @ [currentGroup st]
         else invoiceGroups st)"

text \<open>When the group stays open after a page with a grand total, as the specification words it.\<close>

definition spec_keeps_open :: "ocr \<Rightarrow> ocr \<Rightarrow> ocr option \<Rightarrow> bool" where
  "spec_keeps_open headOcr currentOcr next =
     (case next of
        None \<Rightarrow> False
      | Some nextOcr \<Rightarrow>
          meta_source_page nextOcr = Some (or0 (meta_source_page currentOcr) + 1)
          \<and> isSameVendor (vendor_name nextOcr) (vendor_name headOcr)
          \<and> (spec_effective_continuation nextOcr
              \<or> (truthy (isFolioPage (Some nextOcr))
                  \<and> truthy (bu_code nextOcr) \<and> strict_eq (bu_code nextOcr) (bu_code headOcr)
                  \<and> \<not> truthy (vendor_id nextOcr))))"

subsection \<open>Sample pages\<close>

definition page10 :: ocr where
  "page10 = blank_page\<lparr>meta_source_page := Some 10, meta_has_grand_total := JBool False,
     invoice_number := JStr ''1555056163'', invoice_date := JStr ''2025-05-18'',
     vendor_name := Some ''Extended Stay America'', vendor_id := JStr ''1020857'',
     bu_code := JStr ''53902028.502363'', invoice_total := Some 0\<rparr>"

definition page11 :: ocr where
  "page11 = blank_page\<lparr>meta_source_page := Some 11, meta_is_continuation_page := JBool True,
     meta_has_grand_total := JBool False, vendor_name := Some ''ESA Suites'',
     invoice_total := Some 0\<rparr>"

definition page12 :: ocr where
  "page12 = blank_page\<lparr>meta_source_page := Some 12, meta_has_grand_total := JBool True,
     invoice_number := JStr ''9700274547'', invoice_date := JStr ''2025-05-17'',
     vendor_name := Some ''Extended Stay America'', bu_code := JStr ''53902028.502363'',
     invoice_total := Some (54287 / 100), amount_paid := Some (32976 / 100),
     amount_due := Some (54287 / 100), taxes := Some (6944 / 100)\<rparr>"

definition page13 :: ocr where
  "page13 = blank_page\<lparr>meta_source_page := Some 13, meta_has_grand_total := JBool True,
     invoice_number := JStr ''INV-77'', invoice_date := JStr ''2025-06-01'',
     vendor_name := Some ''RJ Young'', vendor_id := JStr ''4777'', bu_code := JStr ''53902028'',
     invoice_total := Some 120\<rparr>"

definition sample_rows :: "row list" where
  "sample_rows =
     [\<lparr>Number = ''4'', File_ID = ''f13'', OCR = Some page13\<rparr>,
      \<lparr>Number = ''1'', File_ID = ''f10'', OCR = Some page10\<rparr>,
      \<lparr>Number = ''9'', File_ID = ''f00'', OCR = None\<rparr>,
      \<lparr>Number = ''2'', File_ID = ''f11'', OCR = Some page11\<rparr>,
      \<lparr>Number = ''3'', File_ID = ''f12'', OCR = Some page12\<rparr>]"

definition page13_detail :: ocr where
  "page13_detail = blank_page\<lparr>meta_source_page := Some 13,
     vendor_name := Some ''Extended Stay America''\<rparr>"

definition pg :: "nat \<Rightarrow> ocr \<Rightarrow> page" where
  "pg i p = \<lparr>page_pos = i, page_row = \<lparr>Number = [], File_ID = [], OCR = Some p\<rparr>, page_ocr = p\<rparr>"

definition open_state :: assembler_state where
  "open_state = \<lparr>invoiceGroups = [], currentGroup = [pg 0 page10, pg 1 page11]\<rparr>"

section \<open>Field reconciliation\<close>

text \<open>
  The merged record of a group: the fields of a page record, the \<^verbatim>\<open>merge_info\<close> and
  the provenance of the rows. The fields of the source that no claim reads (line items,
  confirmation numbers, notes, service dates, the text \<^verbatim>\<open>merge_reasoning\<close>) are left
  out of the model.
\<close>

record merge_information =
  page_count :: nat
  source_pages :: "int list"
  was_merged :: bool

record merged_invoice =
  merged_ocr :: ocr
  merge_info :: merge_information
  all_source_file_ids :: "string list"
  all_source_rows :: "string list"

text \<open>\<^verbatim>\<open>a || b\<close> for optional strings.\<close>

definition str_or :: "string option \<Rightarrow> string option \<Rightarrow> string option" where
  "str_or a b = (if no_string a then b else a)"

text \<open>\<^verbatim>\<open>p.ocr?.meta_has_grand_total && (p.ocr?.invoice_total || 0) > 0\<close>\<close>

definition carriesTotal :: "page \<Rightarrow> bool" where
  "carriesTotal p =
     (truthy (meta_has_grand_total (page_ocr p)) \<and> or0 (invoice_total (page_ocr p)) > 0)"

definition totalOf :: "page \<Rightarrow> rat" where
  "totalOf p = or0 (invoice_total (page_ocr p))"

definition createMergedInvoice :: "page list \<Rightarrow> merged_invoice option" where
  "createMergedInvoice pages0 =
     (if pages0 = [] then None
      else (let pages = sort_key pageNo pages0;
                pageOcrs = map page_ocr pages;
                pageRows = map page_row pages
            in if length pages = 1
               then Some
                 \<lparr>merged_ocr = hd pageOcrs,
                  merge_info = \<lparr>page_count = 1,
                                source_pages = [or0 (meta_source_page (hd pageOcrs))],
                                was_merged = False\<rparr>,
                  all_source_file_ids = [File_ID (hd pageRows)],
                  all_source_rows = [Number (hd pageRows)]\<rparr>
               else (let pagesWithTotal =
                           sort_key (\<lambda>p. - totalOf p) (filter carriesTotal pages);
                         totalOcr = (case pagesWithTotal of
                                       [] \<Rightarrow> hd pageOcrs
                                     | pageWithTotal # _ \<Rightarrow> page_ocr pageWithTotal);
                         headerPage =
                           find (\<lambda>p. truthy (vendor_id (page_ocr p)) \<or> truthy (bu_code (page_ocr p))
                                      \<or> truthy (processor_name (page_ocr p))) pages;
                         headerOcr = (case headerPage of
                                        None \<Rightarrow> hd pageOcrs
                                      | Some p \<Rightarrow> page_ocr p);
                         sourcePages = sort (map (\<lambda>p. or0 (meta_source_page p)) pageOcrs)
                     in Some
                       \<lparr>merged_ocr =
                          \<lparr>meta_source_page = Some (hd sourcePages),
                           meta_is_continuation_page = JBool False,
                           meta_has_grand_total = JBool True,
                           meta_invoice_type =
                             js_or (meta_invoice_type headerOcr) (JStr ''UNKNOWN''),
                           invoice_number =
                             (if truthy (invoice_number headerOcr)
                                 \<and> \<not> strict_eq (invoice_number headerOcr) (JStr ''N/A'')
                              then invoice_number headerOcr
                              else js_or (invoice_number totalOcr) (JStr ''N/A'')),
                           invoice_date = js_or (invoice_date headerOcr) (invoice_date totalOcr),
                           vendor_name = str_or (vendor_name headerOcr) (vendor_name totalOcr),
                           vendor_id = js_or (vendor_id headerOcr) (vendor_id totalOcr),
                           bu_code = js_or (bu_code headerOcr) (bu_code totalOcr),
                           processor_name =
                             js_or (processor_name headerOcr) (processor_name totalOcr),
                           invoice_total = Some (or0 (invoice_total totalOcr)),
                           amount_paid = Some (or0 (amount_paid totalOcr)),
                           amount_due = Some (or0 (amount_due totalOcr)),
                           taxes = Some (or0 (taxes totalOcr))\<rparr>,
                        merge_info = \<lparr>page_count = length pages,
                                      source_pages = sourcePages,
                                      was_merged = True\<rparr>,
                        all_source_file_ids = map File_ID pageRows,
                        all_source_rows = map Number pageRows\<rparr>)))"

text \<open>The four financial fields of a merged record, and what a page gives for them.\<close>

definition financial :: "ocr \<Rightarrow> rat option \<times> rat option \<times> rat option \<times> rat option" where
  "financial d = (invoice_total d, amount_paid d, amount_due d, taxes d)"

definition financial_of_page :: "page \<Rightarrow> rat option \<times> rat option \<times> rat option \<times> rat option"
  where
  "financial_of_page p =
     (Some (or0 (invoice_total (page_ocr p))), Some (or0 (amount_paid (page_ocr p))),
      Some (or0 (amount_due (page_ocr p))), Some (or0 (taxes (page_ocr p))))"

section \<open>The merged output\<close>





subsection \<open>Sample groups\<close>

definition page12_repeat :: ocr where
  "page12_repeat = page12\<lparr>meta_source_page := Some 13, amount_paid := Some 0\<rparr>"

definition tie_group :: "page list" where
  "tie_group = [pg 2 page12_repeat, pg 0 page10, pg 1 page12]"

section \<open>Properties of the classifiers\<close>

lemma not_truthy_iff:
  "(\<not> truthy v) = (v \<in> {JUndefined, JNull, JBool False, JNum 0, JStr []})"
  by (cases v) auto

lemma strict_eq_JStr [simp]: "strict_eq v (JStr s) = (v = JStr s)"
  by (cases v) auto

lemma strict_eq_JBool [simp]: "strict_eq v (JBool b) = (v = JBool b)"
  by (cases v) auto

lemma hasNoDate_spec: "hasNoDate p = spec_date_missing p"
  by (auto simp: hasNoDate_def spec_date_missing_def not_truthy_iff)

lemma hasNoInvoiceNum_spec: "hasNoInvoiceNum p = spec_number_missing_or_placeholder p"
  by (auto simp: hasNoInvoiceNum_def spec_number_missing_or_placeholder_def not_truthy_iff)

lemma hasNoVendorId_spec: "hasNoVendorId p = spec_vendor_id_missing p"
  by (auto simp: hasNoVendorId_def spec_vendor_id_missing_def not_truthy_iff)

lemma hasNoBuCode_spec: "hasNoBuCode p = spec_business_code_missing p"
  by (auto simp: hasNoBuCode_def spec_business_code_missing_def not_truthy_iff)

lemma hasUnknownVendor_spec: "hasUnknownVendor p = spec_vendor_unknown p"
  by (auto simp: hasUnknownVendor_def spec_vendor_unknown_def no_string_def
      split: option.splits)

lemma isEffectiveContinuationPage_boolean: "is_boolean (isEffectiveContinuationPage x)"
  by (simp add: isEffectiveContinuationPage_def is_boolean_def split: option.splits)

text \<open>
  C3. The effective-continuation classifier returns \<^verbatim>\<open>true\<close> exactly when the page is
  declared a continuation, or its date is missing and its number is missing or a
  placeholder or its vendor identifier is missing, or its vendor is unknown and date,
  vendor identifier and business code are all missing; in every other case, and for the
  null record, it returns \<^verbatim>\<open>false\<close>.
\<close>

theorem C3_effective_continuation_iff:
  "isEffectiveContinuationPage (Some p) = JBool (spec_effective_continuation p)
   \<and> isEffectiveContinuationPage None = JBool False"
  by (simp add: isEffectiveContinuationPage_def spec_effective_continuation_def
      spec_declared_continuation_def hasNoDate_spec hasNoInvoiceNum_spec hasNoVendorId_spec
      hasNoBuCode_spec hasUnknownVendor_spec)

theorem C3_effective_continuation_witness:
  "isEffectiveContinuationPage (Some blank_page) = JBool True
   \<and> isEffectiveContinuationPage (Some acme_doc) = JBool False"
  using C3_effective_continuation_iff [of blank_page] C3_effective_continuation_iff [of acme_doc]
  by (simp add: spec_effective_continuation_def spec_declared_continuation_def
      spec_date_missing_def spec_number_missing_or_placeholder_def spec_vendor_id_missing_def
      spec_business_code_missing_def spec_vendor_unknown_def blank_page_def acme_doc_def)

lemma isHeaderPage_value:
  "isHeaderPage (Some p) =
     (if \<not> truthy (vendor_id p) then vendor_id p
      else if \<not> truthy (bu_code p) then bu_code p
      else if \<not> truthy (invoice_date p) then invoice_date p
      else JBool (\<not> truthy (meta_is_continuation_page p)))"
  by (simp add: isHeaderPage_def js_and_def js_not_def)

lemma isFolioPage_value:
  "isFolioPage (Some p) =
     (if \<not> truthy (invoice_number p) then invoice_number p
      else JBool (folio_pattern (js_String (invoice_number p))))"
  by (simp add: isFolioPage_def js_and_def)

text \<open>
  C8 as stated fails: on a page record without a vendor identifier the header test
  returns \<^verbatim>\<open>undefined\<close>, the value of the absent field, and not \<^verbatim>\<open>false\<close>.
\<close>

theorem C8_header_of_blank_page_is_undefined:
  "isHeaderPage (Some blank_page) = JUndefined \<and> \<not> is_boolean (isHeaderPage (Some blank_page))
   \<and> isFolioPage (Some blank_page) = JUndefined"
  by (simp add: isHeaderPage_def isFolioPage_def js_and_def blank_page_def is_boolean_def)

text \<open>
  C8, amended. For every payload the three classifiers return a value (the model has no
  error result: none of them calls a method of a field). The effective-continuation test
  always returns \<^verbatim>\<open>true\<close> or \<^verbatim>\<open>false\<close>. The header test and the folio test return
  \<^verbatim>\<open>true\<close> or \<^verbatim>\<open>false\<close> when the fields they test first (vendor identifier, business
  code and date; invoice number) are truthy, and for the null record; when one of these
  fields is absent or falsy they return the value of the first such field, which is
  falsy.
\<close>

theorem C8_classifier_results:
  "is_boolean (isEffectiveContinuationPage x)
   \<and> is_boolean (isHeaderPage None) \<and> is_boolean (isFolioPage None)
   \<and> isHeaderPage (Some p) =
       (if \<not> truthy (vendor_id p) then vendor_id p
        else if \<not> truthy (bu_code p) then bu_code p
        else if \<not> truthy (invoice_date p) then invoice_date p
        else JBool (\<not> truthy (meta_is_continuation_page p)))
   \<and> isFolioPage (Some p) =
       (if \<not> truthy (invoice_number p) then invoice_number p
        else JBool (folio_pattern (js_String (invoice_number p))))
   \<and> (is_boolean (isHeaderPage (Some p)) \<or> \<not> truthy (isHeaderPage (Some p)))
   \<and> (is_boolean (isFolioPage (Some p)) \<or> \<not> truthy (isFolioPage (Some p)))"
proof -
  have none: "is_boolean (isHeaderPage None)" "is_boolean (isFolioPage None)"
    by (simp_all add: isHeaderPage_def isFolioPage_def is_boolean_def)
  have header: "is_boolean (isHeaderPage (Some p)) \<or> \<not> truthy (isHeaderPage (Some p))"
    by (simp add: isHeaderPage_value is_boolean_def)
  have folio: "is_boolean (isFolioPage (Some p)) \<or> \<not> truthy (isFolioPage (Some p))"
    by (simp add: isFolioPage_value is_boolean_def)
  show ?thesis
    by (intro conjI isEffectiveContinuationPage_boolean none header folio
        isHeaderPage_value isFolioPage_value)
qed

theorem C8_classifier_results_witness:
  "is_boolean (isEffectiveContinuationPage (Some acme_doc))
   \<and> isHeaderPage (Some acme_doc) = JUndefined
   \<and> isFolioPage (Some acme_doc) = JBool False
   \<and> isFolioPage (Some (acme_doc\<lparr>invoice_number := JStr ''9700274547''\<rparr>)) = JBool True"
proof -
  have "folio_pattern ''9700274547''" "\<not> folio_pattern ''R35086148''"
    by (simp_all add: folio_pattern_def is_digit_def)
  then show ?thesis
    using C8_classifier_results [of "Some acme_doc" acme_doc]
      C8_classifier_results [of "Some acme_doc" "acme_doc\<lparr>invoice_number := JStr ''9700274547''\<rparr>"]
    by (simp add: acme_doc_def blank_page_def)
qed

section \<open>Properties of the matcher\<close>

text \<open>
  C1. No document and no ledger entry should be in two matches. Pass 1 takes its
  candidates from the lookup index, which is never pruned: two ledger lines that carry
  the number and the vendor of one document are both paired with it.
\<close>

theorem C1_document_matched_twice:
  "map (\<lambda>m. (fst (match_ledger m), fst (match_ocr m), match_type (matchInfo m)))
     (matches (matchInvoices [acme_ledger, acme_ledger\<lparr>debit := 1240\<rparr>] [acme_doc]))
   = [(0, 0, ''invoice_number''), (1, 0, ''invoice_number'')]"
  by code_simp







lemma normalizeInvoiceNumber_zeros:
  assumes "list_all (\<lambda>c. c = CHR ''0'') (trim s)"
  shows "normalizeInvoiceNumber (JStr s) = []"
proof -
  have "dropWhile (\<lambda>c. c = CHR ''0'') (trim s) = []"
    using assms by (simp add: list_all_iff dropWhile_eq_Nil_conv)
  then show ?thesis
    by (simp add: normalizeInvoiceNumber_def toUpperCase_def)
qed

lemma pass1_step_skips:
  "normalizeInvoiceNumber (JStr (ledger_invoice_number (snd le))) = [] \<Longrightarrow> pass1_step idx le st = st"
  by (simp add: pass1_step_def)

lemma index_add_ok:
  "index_ok es m \<Longrightarrow> e \<in> set es \<Longrightarrow> index_ok es (index_add e m)"
  by (auto simp: index_ok_def index_add_def candidates_of_def Let_def split: option.splits if_splits)

lemma fold_index_add_ok:
  "index_ok es m \<Longrightarrow> set xs \<subseteq> set es \<Longrightarrow> index_ok es (fold index_add xs m)"
  by (induction xs arbitrary: m) (auto simp: index_add_ok)

lemma ocrByInvoiceNum_ok: "index_ok es (ocrByInvoiceNum es)"
  unfolding ocrByInvoiceNum_def
  by (rule fold_index_add_ok) (simp_all add: index_ok_def candidates_of_def)

lemma index_okD:
  "index_ok es m \<Longrightarrow> e \<in> set (candidates_of m k) \<Longrightarrow>
   e \<in> set es \<and> normalizeInvoiceNumber (invoice_number (snd e)) = k \<and> k \<noteq> [] \<and> k \<noteq> ''N/A''"
  unfolding index_ok_def by blast

lemma pass1_scan_mem: "pass1_scan l cs = Some c \<Longrightarrow> c \<in> set cs"
  by (induction cs) (auto simp: Let_def split: if_splits)

lemma pass1_step_by_number:
  assumes "index_ok es idx" "list_all by_number_ok (matches st)"
  shows "list_all by_number_ok (matches (pass1_step idx le st))"
  using assms
  by (auto simp: pass1_step_def Let_def by_number_ok_def index_ok_def
      dest!: pass1_scan_mem split: option.splits)

lemma pass1_fold_by_number:
  "index_ok es idx \<Longrightarrow> list_all by_number_ok (matches st) \<Longrightarrow>
   list_all by_number_ok (matches (fold (pass1_step idx) ls st))"
  by (induction ls arbitrary: st) (auto simp: pass1_step_by_number)

lemma pass2_step_by_number:
  "list_all by_number_ok (matches st) \<Longrightarrow> list_all by_number_ok (matches (pass2_step le st))"
  by (auto simp: pass2_step_def by_number_ok_def split: option.splits)

lemma pass2_fold_by_number:
  "list_all by_number_ok (matches st) \<Longrightarrow> list_all by_number_ok (matches (fold pass2_step ls st))"
  by (induction ls arbitrary: st) (auto simp: pass2_step_by_number)

lemma matchInvoices_by_number: "list_all by_number_ok (matches (matchInvoices ls ds))"
  unfolding matchInvoices_def pass2_def pass1_def
  by (intro pass2_fold_by_number pass1_fold_by_number[OF ocrByInvoiceNum_ok]) simp

text \<open>
  C10. A ledger invoice number that is empty, blank or made of zeros only normalises to
  the empty text, and Pass 1 leaves the state as it is for such an entry. A document
  whose normalised number is empty or \<^verbatim>\<open>N/A\<close> is in no entry of the lookup index, and no
  match by invoice number, in the result of the matcher, involves such a document or
  such a ledger entry.
\<close>

theorem C10_empty_numbers_skip_pass1:
  "(list_all (\<lambda>c. c = CHR ''0'') (trim (ledger_invoice_number (snd le))) \<longrightarrow>
      normalizeInvoiceNumber (JStr (ledger_invoice_number (snd le))) = []
      \<and> pass1_step idx le st = st)
   \<and> (normalizeInvoiceNumber (invoice_number (snd e)) \<in> {[], ''N/A''} \<longrightarrow>
        (\<forall>k. e \<notin> set (candidates_of (ocrByInvoiceNum es) k)))
   \<and> (\<forall>m\<in>set (matches (matchInvoices ledgerEntries ocrInvoices)).
        match_type (matchInfo m) = ''invoice_number'' \<longrightarrow>
          normalizeInvoiceNumber (invoice_number (snd (match_ocr m))) \<notin> {[], ''N/A''}
          \<and> normalizeInvoiceNumber (JStr (ledger_invoice_number (snd (match_ledger m)))) \<noteq> [])"
proof (intro conjI impI allI ballI)
  assume z: "list_all (\<lambda>c. c = CHR ''0'') (trim (ledger_invoice_number (snd le)))"
  then show n: "normalizeInvoiceNumber (JStr (ledger_invoice_number (snd le))) = []"
    by (rule normalizeInvoiceNumber_zeros)
  then show "pass1_step idx le st = st"
    by (rule pass1_step_skips)
next
  fix k
  assume "normalizeInvoiceNumber (invoice_number (snd e)) \<in> {[], ''N/A''}"
  then show "e \<notin> set (candidates_of (ocrByInvoiceNum es) k)"
    using index_okD [OF ocrByInvoiceNum_ok, of e es k] by auto
next
  fix m
  assume "m \<in> set (matches (matchInvoices ledgerEntries ocrInvoices))"
    and "match_type (matchInfo m) = ''invoice_number''"
  then have "by_number_ok m" "match_type (matchInfo m) = ''invoice_number''"
    using matchInvoices_by_number [of ledgerEntries ocrInvoices] by (auto simp: list_all_iff)
  then show "normalizeInvoiceNumber (invoice_number (snd (match_ocr m))) \<notin> {[], ''N/A''}"
    and "normalizeInvoiceNumber (JStr (ledger_invoice_number (snd (match_ledger m)))) \<noteq> []"
    by (simp_all add: by_number_ok_def)
qed

theorem C10_empty_numbers_skip_pass1_witness:
  "list_all (\<lambda>c. c = CHR ''0'') (trim (ledger_invoice_number zeros_ledger))
   \<and> normalizeInvoiceNumber (JStr (ledger_invoice_number zeros_ledger)) = []
   \<and> normalizeInvoiceNumber (invoice_number hotels_doc) = ''N/A''
   \<and> candidates_of (ocrByInvoiceNum [(0, acme_doc), (1, hotels_doc)]) ''N/A'' = []
   \<and> map (\<lambda>m. (fst (match_ledger m), fst (match_ocr m), match_type (matchInfo m)))
       (matches (matchInvoices [zeros_ledger, acme_ledger] [acme_doc, hotels_doc]))
     = [(1, 0, ''invoice_number''), (0, 1, ''vendor_date_amount'')]
   \<and> normalizeInvoiceNumber (invoice_number acme_doc) = ''R35086148''"
proof -
  have z: "list_all (\<lambda>c. c = CHR ''0'') (trim (ledger_invoice_number (snd (0::nat, zeros_ledger))))"
    by code_simp
  have na: "normalizeInvoiceNumber (invoice_number (snd (1::nat, hotels_doc))) \<in> {[], ''N/A''}"
    by code_simp
  have ms: "map (\<lambda>m. (fst (match_ledger m), fst (match_ocr m), match_type (matchInfo m)))
       (matches (matchInvoices [zeros_ledger, acme_ledger] [acme_doc, hotels_doc]))
     = [(1, 0, ''invoice_number''), (0, 1, ''vendor_date_amount'')]"
    by code_simp
  have nn: "normalizeInvoiceNumber (invoice_number hotels_doc) = ''N/A''"
    "normalizeInvoiceNumber (invoice_number acme_doc) = ''R35086148''"
    by code_simp+
  note c10 = C10_empty_numbers_skip_pass1 [of "(0, zeros_ledger)" Map.empty hotels_state
      "(1, hotels_doc)" "[(0, acme_doc), (1, hotels_doc)]" "[zeros_ledger, acme_ledger]"
      "[acme_doc, hotels_doc]"]
  have a: "normalizeInvoiceNumber (JStr (ledger_invoice_number zeros_ledger)) = []"
    using c10 z by simp
  have b: "(1, hotels_doc) \<notin> set (candidates_of (ocrByInvoiceNum [(0, acme_doc), (1, hotels_doc)]) ''N/A'')"
    using c10 na by blast
  have c: "(0, acme_doc) \<notin> set (candidates_of (ocrByInvoiceNum [(0, acme_doc), (1, hotels_doc)]) ''N/A'')"
    using index_okD [OF ocrByInvoiceNum_ok, of "(0, acme_doc)" _ "''N/A''"] nn
    by auto
  have "set (candidates_of (ocrByInvoiceNum [(0, acme_doc), (1, hotels_doc)]) ''N/A'')
      \<subseteq> set [(0, acme_doc), (1, hotels_doc)]"
    using index_okD [OF ocrByInvoiceNum_ok] by blast
  with b c have d: "candidates_of (ocrByInvoiceNum [(0, acme_doc), (1, hotels_doc)]) ''N/A'' = []"
    by (cases "candidates_of (ocrByInvoiceNum [(0, acme_doc), (1, hotels_doc)]) ''N/A''") auto
  show ?thesis
    using z a nn d ms by simp
qed

section \<open>Properties of the assembler\<close>

lemma loop_body_concat:
  "concat (invoiceGroups (loop_body st c n)) @ currentGroup (loop_body st c n)
   = concat (invoiceGroups st) @ currentGroup st @ [c]"
  by (simp add: loop_body_def Let_def)

lemma loop_concat:
  "concat (invoiceGroups (loop ps st)) @ currentGroup (loop ps st)
   = concat (invoiceGroups st) @ currentGroup st @ ps"
  by (induction ps arbitrary: st) (simp_all add: loop_body_concat)

lemma loop_body_nonempty:
  "[] \<notin> set (invoiceGroups st) \<Longrightarrow> [] \<notin> set (invoiceGroups (loop_body st c n))"
  by (simp add: loop_body_def Let_def)

lemma loop_nonempty:
  "[] \<notin> set (invoiceGroups st) \<Longrightarrow> [] \<notin> set (invoiceGroups (loop ps st))"
  by (induction ps arbitrary: st) (simp_all add: loop_body_nonempty)

lemma processInvoices_concat: "concat (processInvoices rows) = pagesWithOcr rows"
  using loop_concat [of "pagesWithOcr rows" "\<lparr>invoiceGroups = [], currentGroup = []\<rparr>"]
  by (auto simp: processInvoices_def Let_def)

lemma processInvoices_nonempty: "[] \<notin> set (processInvoices rows)"
  using loop_nonempty [of "\<lparr>invoiceGroups = [], currentGroup = []\<rparr>" "pagesWithOcr rows"]
  by (simp add: processInvoices_def Let_def)

lemma sorted_heads:
  "sorted (map f (concat gs)) \<Longrightarrow> [] \<notin> set gs \<Longrightarrow> sorted (map (\<lambda>g. f (hd g)) gs)"
proof (induction gs)
  case Nil
  then show ?case by simp
next
  case (Cons g gs)
  then have g: "g \<noteq> []" and rest: "[] \<notin> set gs" by auto
  from Cons.prems(1) have s: "sorted (map f (concat gs))"
    and le: "\<forall>x\<in>set g. \<forall>y\<in>set (concat gs). f x \<le> f y"
    by (auto simp: sorted_append)
  have "\<forall>h\<in>set gs. f (hd g) \<le> f (hd h)"
  proof
    fix h assume h: "h \<in> set gs"
    with rest have "h \<noteq> []" by auto
    then have "hd h \<in> set h" by simp
    then have "hd h \<in> set (concat gs)" using h by auto
    moreover have "hd g \<in> set g" using g by simp
    ultimately show "f (hd g) \<le> f (hd h)" using le by blast
  qed
  with Cons.IH [OF s rest] show ?case by simp
qed

lemma make_page_pos: "make_page ir = Some p \<Longrightarrow> page_pos p = fst ir \<and> page_row p = snd ir \<and> OCR (snd ir) = Some (page_ocr p)"
  by (auto simp: make_page_def split: option.splits)

lemma map_filter_Cons: "List.map_filter f (x # xs) = (case f x of None \<Rightarrow> List.map_filter f xs | Some y \<Rightarrow> y # List.map_filter f xs)"
  by (simp add: List.map_filter_def split: option.splits)

lemma set_map_filter: "set (List.map_filter f xs) = {y. \<exists>x\<in>set xs. f x = Some y}"
  by (induction xs) (auto simp: map_filter_Cons List.map_filter_def split: option.splits)

lemma distinct_valid_pages:
  "distinct (map fst irs) \<Longrightarrow> distinct (map page_pos (List.map_filter make_page irs))"
proof (induction irs)
  case Nil
  then show ?case by (simp add: List.map_filter_def)
next
  case (Cons ir irs)
  then have d: "distinct (map page_pos (List.map_filter make_page irs))"
    and n: "fst ir \<notin> fst ` set irs" by auto
  show ?case
  proof (cases "make_page ir")
    case None
    then show ?thesis using d by (simp add: map_filter_Cons)
  next
    case (Some p)
    have "page_pos p \<notin> page_pos ` set (List.map_filter make_page irs)"
    proof
      assume "page_pos p \<in> page_pos ` set (List.map_filter make_page irs)"
      then obtain q x where "x \<in> set irs" "make_page x = Some q" "page_pos q = page_pos p"
        by (auto simp: set_map_filter)
      then have "fst x = fst ir" using make_page_pos [of x q] make_page_pos [OF Some] by simp
      with \<open>x \<in> set irs\<close> n show False by (metis imageI)
    qed
    then show ?thesis using d Some by (simp add: map_filter_Cons)
  qed
qed

lemma pagesWithOcr_distinct: "distinct (map page_pos (pagesWithOcr rows))"
proof -
  have "distinct (map page_pos (List.map_filter make_page (enumerate 0 rows)))"
    by (rule distinct_valid_pages) simp
  moreover have "mset (map page_pos (pagesWithOcr rows))
      = mset (map page_pos (List.map_filter make_page (enumerate 0 rows)))"
    by (simp add: pagesWithOcr_def)
  ultimately show ?thesis
    by (metis distinct_map mset_eq_imp_distinct_iff mset_map mset_sort pagesWithOcr_def set_sort)
qed

lemma pagesWithOcr_sorted: "sorted (map pageNo (pagesWithOcr rows))"
  by (simp add: pagesWithOcr_def)

lemma pagesWithOcr_set:
  "set (pagesWithOcr rows) =
     {p. page_pos p < length rows \<and> page_row p = rows ! page_pos p
         \<and> OCR (rows ! page_pos p) = Some (page_ocr p)}"
proof -
  have "set (pagesWithOcr rows) = {p. \<exists>ir\<in>set (enumerate 0 rows). make_page ir = Some p}"
    by (simp add: pagesWithOcr_def set_map_filter)
  also have "\<dots> = {p. page_pos p < length rows \<and> page_row p = rows ! page_pos p
         \<and> OCR (rows ! page_pos p) = Some (page_ocr p)}"
  proof (intro set_eqI iffI; clarify)
    fix p i r
    assume "(i, r) \<in> set (enumerate 0 rows)" "make_page (i, r) = Some p"
    then show "page_pos p < length rows \<and> page_row p = rows ! page_pos p
         \<and> OCR (rows ! page_pos p) = Some (page_ocr p)"
      using make_page_pos [of "(i, r)" p] by (auto simp: in_set_enumerate_eq)
  next
    fix p :: page
    assume a: "page_pos p < length rows" "page_row p = rows ! page_pos p"
      "OCR (rows ! page_pos p) = Some (page_ocr p)"
    then have "(page_pos p, rows ! page_pos p) \<in> set (enumerate 0 rows)"
      by (simp add: in_set_enumerate_eq)
    moreover have "make_page (page_pos p, rows ! page_pos p) = Some p"
      using a by (simp add: make_page_def)
    ultimately show "\<exists>ir\<in>set (enumerate 0 rows). make_page ir = Some p"
      by blast
  qed
  finally show ?thesis .
qed


lemma distinct_concat_unique:
  "distinct (map f (concat gs)) \<Longrightarrow> k < length gs \<Longrightarrow> k' < length gs \<Longrightarrow>
   x \<in> f ` set (gs ! k) \<Longrightarrow> x \<in> f ` set (gs ! k') \<Longrightarrow> k = k'"
proof (induction gs arbitrary: k k')
  case Nil
  then show ?case by simp
next
  case (Cons g gs)
  from Cons.prems(1) have d: "distinct (map f (concat gs))"
    and disj: "f ` set g \<inter> f ` set (concat gs) = {}"
    by auto
  have later: "x \<notin> f ` set g" if "j < length gs" "x \<in> f ` set (gs ! j)" for j
  proof -
    from that have "x \<in> f ` set (concat gs)"
      by (metis (no_types, lifting) UN_I image_iff nth_mem set_concat)
    with disj show ?thesis by blast
  qed
  show ?case
  proof (cases k)
    case 0
    show ?thesis
    proof (cases k')
      case 0
      with \<open>k = 0\<close> show ?thesis by simp
    next
      case (Suc j')
      with Cons.prems 0 later [of j'] show ?thesis by simp
    qed
  next
    case (Suc j)
    show ?thesis
    proof (cases k')
      case 0
      with Cons.prems Suc later [of j] show ?thesis by simp
    next
      case (Suc j')
      with Cons.prems \<open>k = Suc j\<close> Cons.IH [OF d, of j j'] show ?thesis by simp
    qed
  qed
qed

text \<open>
  C2. The groups partition the pages that have a payload: put end to end they are these
  pages in the order of their page numbers, no group is empty, the groups follow the page
  number of their first page, no page is in two groups and every row with a payload is
  in exactly one group. The group that is open when the input ends is the last of them.
\<close>

theorem C2_groups_partition_pages:
  "concat (processInvoices rows) = pagesWithOcr rows
   \<and> [] \<notin> set (processInvoices rows)
   \<and> sorted (map (\<lambda>g. pageNo (hd g)) (processInvoices rows))
   \<and> distinct (map page_pos (concat (processInvoices rows)))
   \<and> page_pos ` set (concat (processInvoices rows)) = {i. i < length rows \<and> OCR (rows ! i) \<noteq> None}
   \<and> (\<forall>p\<in>set (concat (processInvoices rows)).
        page_row p = rows ! page_pos p \<and> OCR (rows ! page_pos p) = Some (page_ocr p))
   \<and> (\<forall>i<length rows. OCR (rows ! i) \<noteq> None \<longrightarrow>
        (\<exists>!k. k < length (processInvoices rows) \<and> i \<in> page_pos ` set (processInvoices rows ! k)))"
proof (intro conjI ballI allI impI)
  show c: "concat (processInvoices rows) = pagesWithOcr rows"
    by (rule processInvoices_concat)
  show "[] \<notin> set (processInvoices rows)"
    by (rule processInvoices_nonempty)
  show "sorted (map (\<lambda>g. pageNo (hd g)) (processInvoices rows))"
    by (rule sorted_heads) (simp_all add: c pagesWithOcr_sorted processInvoices_nonempty)
  show d: "distinct (map page_pos (concat (processInvoices rows)))"
    by (simp add: c pagesWithOcr_distinct)
  show s: "page_pos ` set (concat (processInvoices rows)) = {i. i < length rows \<and> OCR (rows ! i) \<noteq> None}"
  proof (intro set_eqI iffI)
    fix i assume "i \<in> page_pos ` set (concat (processInvoices rows))"
    then show "i \<in> {i. i < length rows \<and> OCR (rows ! i) \<noteq> None}"
      unfolding c pagesWithOcr_set by auto
  next
    fix i assume "i \<in> {i. i < length rows \<and> OCR (rows ! i) \<noteq> None}"
    then obtain q where q: "i < length rows" "OCR (rows ! i) = Some q" by auto
    then have "\<lparr>page_pos = i, page_row = rows ! i, page_ocr = q\<rparr> \<in> set (pagesWithOcr rows)"
      by (simp add: pagesWithOcr_set)
    then show "i \<in> page_pos ` set (concat (processInvoices rows))"
      unfolding c by force
  qed
  { fix p assume "p \<in> set (concat (processInvoices rows))"
    then show "page_row p = rows ! page_pos p" "OCR (rows ! page_pos p) = Some (page_ocr p)"
      unfolding c pagesWithOcr_set by auto }
  { fix i assume "i < length rows" "OCR (rows ! i) \<noteq> None"
    then have "i \<in> page_pos ` set (concat (processInvoices rows))"
      using s by simp
    then obtain g where "g \<in> set (processInvoices rows)" "i \<in> page_pos ` set g"
      by auto
    then obtain k where k: "k < length (processInvoices rows)" "i \<in> page_pos ` set (processInvoices rows ! k)"
      by (metis in_set_conv_nth)
    show "\<exists>!k. k < length (processInvoices rows) \<and> i \<in> page_pos ` set (processInvoices rows ! k)"
    proof (rule ex1I [of _ k])
      show "k < length (processInvoices rows) \<and> i \<in> page_pos ` set (processInvoices rows ! k)"
        using k by simp
    next
      fix k' assume "k' < length (processInvoices rows) \<and> i \<in> page_pos ` set (processInvoices rows ! k')"
      then show "k' = k"
        using distinct_concat_unique [OF d, of k' k i] k by simp
    qed }
qed

theorem C2_groups_partition_pages_witness:
  "map (map page_pos) (processInvoices sample_rows) = [[1, 3, 4], [0]]
   \<and> map (\<lambda>g. pageNo (hd g)) (processInvoices sample_rows) = [10, 13]
   \<and> concat (processInvoices sample_rows) = pagesWithOcr sample_rows
   \<and> (3::nat) < length sample_rows \<and> OCR (sample_rows ! 3) \<noteq> None
   \<and> (\<exists>!k. k < length (processInvoices sample_rows)
            \<and> 3 \<in> page_pos ` set (processInvoices sample_rows ! k))"
proof -
  have groups: "map (map page_pos) (processInvoices sample_rows) = [[1, 3, 4], [0]]"
    by code_simp
  have heads: "map (\<lambda>g. pageNo (hd g)) (processInvoices sample_rows) = [10, 13]"
    by code_simp
  have row: "(3::nat) < length sample_rows" "OCR (sample_rows ! 3) \<noteq> None"
    by (simp_all add: sample_rows_def)
  note c2 = C2_groups_partition_pages [of sample_rows]
  from c2 row have "\<exists>!k. k < length (processInvoices sample_rows)
            \<and> 3 \<in> page_pos ` set (processInvoices sample_rows ! k)"
    by blast
  with c2 groups heads row show ?thesis by blast
qed

lemma isEffectiveContinuationPage_Some:
  "isEffectiveContinuationPage (Some p) = JBool (spec_effective_continuation p)"
  by (simp add: isEffectiveContinuationPage_def spec_effective_continuation_def
      spec_declared_continuation_def hasNoDate_spec hasNoInvoiceNum_spec hasNoVendorId_spec
      hasNoBuCode_spec hasUnknownVendor_spec)

lemma no_vendor_id_no_header: "\<not> truthy (vendor_id p) \<Longrightarrow> \<not> truthy (isHeaderPage (Some p))"
  by (simp add: isHeaderPage_value)

lemma strict_eq_imp_eq: "strict_eq a b \<Longrightarrow> a = b"
  by (cases a) auto

lemma shouldContinue_spec:
  "shouldContinue currentOcr firstOcr next = spec_keeps_open firstOcr currentOcr next"
proof (cases "next")
  case None
  then show ?thesis by (simp add: shouldContinue_def spec_keeps_open_def)
next
  case (Some n)
  have header: "\<not> truthy (vendor_id n) \<Longrightarrow> \<not> truthy (isHeaderPage (Some n))"
    by (rule no_vendor_id_no_header)
  have code: "truthy (bu_code n) \<Longrightarrow> strict_eq (bu_code n) (bu_code firstOcr) \<Longrightarrow>
      truthy (bu_code firstOcr)"
    using strict_eq_imp_eq [of "bu_code n" "bu_code firstOcr"] by simp
  show ?thesis
    using header code
    by (auto simp: Some shouldContinue_def spec_keeps_open_def Let_def
        isEffectiveContinuationPage_Some)
qed

text \<open>
  C5. When a page that carries a positive grand total, and is not an effective
  continuation, is added to the open group, the group is closed with it at once, unless
  the next input page has the following page number, the vendor of the first page of the
  group, and is an effective continuation or a folio page with the business code of
  that first page and no vendor identifier of its own; then the group stays open.
\<close>

theorem C5_total_page_closes_group:
  assumes "currentGroup st \<noteq> []"
    and "shouldMerge (page_ocr current) (page_ocr (last (currentGroup st)))
           (page_ocr (hd (currentGroup st)))"
    and "meta_has_grand_total (page_ocr current) = JBool True"
    and "0 < or0 (invoice_total (page_ocr current))"
    and "\<not> spec_effective_continuation (page_ocr current)"
  shows "loop_body st current nextPage =
     (if spec_keeps_open (page_ocr (hd (currentGroup st))) (page_ocr current)
           (map_option page_ocr nextPage)
      then st\<lparr>currentGroup := currentGroup st @ [current]\<rparr>
      else \<lparr>invoiceGroups = invoiceGroups st @ [currentGroup st @ [current]],
            currentGroup = []\<rparr>)"
  using assms
  by (simp add: loop_body_def Let_def shouldContinue_spec isEffectiveContinuationPage_Some)


theorem C5_total_page_closes_group_witness:
  "loop_body open_state (pg 2 page12) (Some (pg 3 page13)) =
     \<lparr>invoiceGroups = [[pg 0 page10, pg 1 page11, pg 2 page12]], currentGroup = []\<rparr>
   \<and> loop_body open_state (pg 2 page12) None =
     \<lparr>invoiceGroups = [[pg 0 page10, pg 1 page11, pg 2 page12]], currentGroup = []\<rparr>
   \<and> loop_body open_state (pg 2 page12) (Some (pg 3 page13_detail)) =
     \<lparr>invoiceGroups = [], currentGroup = [pg 0 page10, pg 1 page11, pg 2 page12]\<rparr>"
proof -
  have grp: "currentGroup open_state \<noteq> []"
    by (simp add: open_state_def)
  have mrg: "shouldMerge (page_ocr (pg 2 page12)) (page_ocr (last (currentGroup open_state)))
           (page_ocr (hd (currentGroup open_state)))"
    by code_simp
  have tot: "meta_has_grand_total (page_ocr (pg 2 page12)) = JBool True"
    "0 < or0 (invoice_total (page_ocr (pg 2 page12)))"
    by code_simp+
  have cont: "\<not> spec_effective_continuation (page_ocr (pg 2 page12))"
    by code_simp
  have k1: "\<not> spec_keeps_open (page_ocr (hd (currentGroup open_state))) (page_ocr (pg 2 page12))
           (map_option page_ocr (Some (pg 3 page13)))"
    by code_simp
  have k2: "\<not> spec_keeps_open (page_ocr (hd (currentGroup open_state))) (page_ocr (pg 2 page12))
           (map_option page_ocr None)"
    by code_simp
  have k3: "spec_keeps_open (page_ocr (hd (currentGroup open_state))) (page_ocr (pg 2 page12))
           (map_option page_ocr (Some (pg 3 page13_detail)))"
    by code_simp
  note c5 = C5_total_page_closes_group [OF grp mrg tot cont]
  show ?thesis
    using c5 [of "Some (pg 3 page13)"] c5 [of None] c5 [of "Some (pg 3 page13_detail)"] k1 k2 k3
    by (simp add: open_state_def)
qed

section \<open>Properties of the reconciler\<close>

lemma sort_key_Nil_iff: "(sort_key f xs = []) = (xs = [])"
  by (metis length_0_conv length_sort)

lemma hd_insort_key:
  "hd (insort_key f x ys) = (if ys = [] \<or> f x \<le> f (hd ys) then x else hd ys)"
  by (cases ys) auto

lemma hd_sort_key_first_min:
  "xs \<noteq> [] \<Longrightarrow>
   \<exists>pre p post. xs = pre @ p # post \<and> (\<forall>x\<in>set pre. f p < f x) \<and> (\<forall>x\<in>set post. f p \<le> f x)
      \<and> hd (sort_key f xs) = p"
proof (induction xs)
  case Nil
  then show ?case by simp
next
  case (Cons x xs)
  show ?case
  proof (cases "xs = []")
    case True
    then have "x # xs = [] @ x # [] \<and> (\<forall>y\<in>set []. f x < f y) \<and> (\<forall>y\<in>set []. f x \<le> f y)
        \<and> hd (sort_key f (x # xs)) = x"
      by simp
    then show ?thesis by blast
  next
    case False
    from Cons.IH [OF False] obtain pre p post where
      d: "xs = pre @ p # post" "\<forall>y\<in>set pre. f p < f y" "\<forall>y\<in>set post. f p \<le> f y"
        "hd (sort_key f xs) = p"
      by blast
    have ne: "sort_key f xs \<noteq> []" using False by (simp add: sort_key_Nil_iff)
    have hd: "hd (sort_key f (x # xs)) = (if f x \<le> f p then x else p)"
      using ne d(4) by (simp add: hd_insort_key)
    show ?thesis
    proof (cases "f x \<le> f p")
      case True
      have "\<forall>y\<in>set xs. f x \<le> f y"
        using d True by (auto intro: order_trans less_imp_le)
      then have "x # xs = [] @ x # xs \<and> (\<forall>y\<in>set []. f x < f y) \<and> (\<forall>y\<in>set xs. f x \<le> f y)
          \<and> hd (sort_key f (x # xs)) = x"
        using hd True by simp
      then show ?thesis by blast
    next
      case False
      then have "x # xs = (x # pre) @ p # post \<and> (\<forall>y\<in>set (x # pre). f p < f y)
          \<and> (\<forall>y\<in>set post. f p \<le> f y) \<and> hd (sort_key f (x # xs)) = p"
        using d hd by auto
      then show ?thesis by blast
    qed
  qed
qed

text \<open>
  C6. For a group of more than one page, the invoice total, the amount paid, the amount
  due and the taxes of the merged record are those of one member page (a missing value
  read as 0): among the pages, in page order, whose grand-total flag is set and whose
  total is positive, the first one of the largest total; where no page qualifies, the
  first page in page order, which is the first page of the group when the group is in
  page order, as the groups of the assembler are.
\<close>

theorem C6_financial_fields_from_largest_total:
  assumes "1 < length grp"
  shows "\<exists>d. createMergedInvoice grp = Some d \<and> was_merged (merge_info d)
     \<and> page_count (merge_info d) = length grp
     \<and> (filter carriesTotal (sort_key pageNo grp) = [] \<longrightarrow>
          financial (merged_ocr d) = financial_of_page (hd (sort_key pageNo grp)))
     \<and> (filter carriesTotal (sort_key pageNo grp) \<noteq> [] \<longrightarrow>
          (\<exists>pre p post. filter carriesTotal (sort_key pageNo grp) = pre @ p # post
             \<and> (\<forall>x\<in>set pre. totalOf x < totalOf p) \<and> (\<forall>x\<in>set post. totalOf x \<le> totalOf p)
             \<and> financial (merged_ocr d) = financial_of_page p))
     \<and> (sorted (map pageNo grp) \<longrightarrow> sort_key pageNo grp = grp)"
proof -
  let ?pages = "sort_key pageNo grp"
  let ?q = "filter carriesTotal ?pages"
  from assms have ne: "grp \<noteq> []" and len: "length ?pages \<noteq> 1" by auto
  have "createMergedInvoice grp \<noteq> None"
    using ne by (simp add: createMergedInvoice_def Let_def)
  then obtain d where d: "createMergedInvoice grp = Some d"
    by blast
  have fin: "financial (merged_ocr d) =
      financial_of_page (case sort_key (\<lambda>p. - totalOf p) ?q of [] \<Rightarrow> hd ?pages | p # _ \<Rightarrow> p)"
    using d ne len
    by (auto simp: createMergedInvoice_def Let_def financial_def financial_of_page_def hd_map
        sort_key_Nil_iff split: list.splits)
  have info: "was_merged (merge_info d)" "page_count (merge_info d) = length grp"
    using d ne len by (auto simp: createMergedInvoice_def Let_def)
  have none: "financial (merged_ocr d) = financial_of_page (hd ?pages)" if "?q = []"
    using fin that by simp
  have some: "\<exists>pre p post. ?q = pre @ p # post
             \<and> (\<forall>x\<in>set pre. totalOf x < totalOf p) \<and> (\<forall>x\<in>set post. totalOf x \<le> totalOf p)
             \<and> financial (merged_ocr d) = financial_of_page p" if "?q \<noteq> []"
  proof -
    from hd_sort_key_first_min [OF that, of "\<lambda>p. - totalOf p"] obtain pre p post where
      m: "?q = pre @ p # post" "\<forall>x\<in>set pre. - totalOf p < - totalOf x"
        "\<forall>x\<in>set post. - totalOf p \<le> - totalOf x" "hd (sort_key (\<lambda>p. - totalOf p) ?q) = p"
      by blast
    have "sort_key (\<lambda>p. - totalOf p) ?q \<noteq> []"
      using that by (simp add: sort_key_Nil_iff)
    then have "(case sort_key (\<lambda>p. - totalOf p) ?q of [] \<Rightarrow> hd ?pages | p # _ \<Rightarrow> p) = p"
      using m(4) by (cases "sort_key (\<lambda>p. - totalOf p) ?q") auto
    with fin m show ?thesis by auto
  qed
  have srt: "sort_key pageNo grp = grp" if "sorted (map pageNo grp)"
    using that by (rule sort_key_id_if_sorted)
  from d info none some srt show ?thesis by blast
qed

theorem C6_financial_fields_from_largest_total_witness:
  "(1::nat) < length tie_group
   \<and> (\<exists>d. createMergedInvoice tie_group = Some d \<and> was_merged (merge_info d)
          \<and> financial (merged_ocr d) = financial_of_page (pg 1 page12))
   \<and> filter carriesTotal (sort_key pageNo tie_group) = [pg 1 page12, pg 2 page12_repeat]
   \<and> totalOf (pg 1 page12) = totalOf (pg 2 page12_repeat)
   \<and> map_option (financial \<circ> merged_ocr) (createMergedInvoice [pg 1 page11, pg 0 page10])
       = Some (financial_of_page (pg 0 page10))"
proof -
  have len: "1 < length tie_group"
    by (simp add: tie_group_def)
  from C6_financial_fields_from_largest_total [OF len]
  obtain d where d: "createMergedInvoice tie_group = Some d" "was_merged (merge_info d)"
    by blast
  have "map_option (financial \<circ> merged_ocr) (createMergedInvoice tie_group)
      = Some (financial_of_page (pg 1 page12))"
    by code_simp
  with d have fin: "financial (merged_ocr d) = financial_of_page (pg 1 page12)"
    by simp
  have q: "filter carriesTotal (sort_key pageNo tie_group) = [pg 1 page12, pg 2 page12_repeat]"
    by code_simp
  have t: "totalOf (pg 1 page12) = totalOf (pg 2 page12_repeat)"
    by code_simp
  have fb: "map_option (financial \<circ> merged_ocr) (createMergedInvoice [pg 1 page11, pg 0 page10])
       = Some (financial_of_page (pg 0 page10))"
    by code_simp
  from len d fin q t fb show ?thesis by blast
qed

text \<open>
  C7. For a group of one page the merged record holds the page record as it is, with
  \<^verbatim>\<open>was_merged\<close> false, a page count of 1, the page number of the page as the only
  source page and the file and row of the page as provenance.
\<close>

theorem C7_single_page_verbatim:
  "createMergedInvoice [p] =
     Some \<lparr>merged_ocr = page_ocr p,
           merge_info = \<lparr>page_count = 1, source_pages = [or0 (meta_source_page (page_ocr p))],
                         was_merged = False\<rparr>,
           all_source_file_ids = [File_ID (page_row p)],
           all_source_rows = [Number (page_row p)]\<rparr>"
  by (simp add: createMergedInvoice_def)

theorem C7_single_page_verbatim_witness:
  "createMergedInvoice [pg 3 page13] =
     Some \<lparr>merged_ocr = page13,
           merge_info = \<lparr>page_count = 1, source_pages = [13], was_merged = False\<rparr>,
           all_source_file_ids = [[]], all_source_rows = [[]]\<rparr>"
  using C7_single_page_verbatim [of "pg 3 page13"]
  by (simp add: pg_def page13_def or0_def)

section \<open>Properties of the merged output\<close>





end
